theory Spec2Isabelle
  imports Complex_Main "HOL-Library.Sublist"
begin

section \<open>JavaScript values as the validation engine sees them\<close>

text \<open>
  The engine of \<^verbatim>\<open>src/assets/js/validation-engine.js\<close> reads scalar values out of
  a ruleset and an attribute mapping: \<^verbatim>\<open>undefined\<close>, \<^verbatim>\<open>null\<close>, booleans, numbers and
  strings. A finite number is given by its exact value; comparing two doubles is exact,
  so \<open><\<close> on the exact values is the comparison the code performs. The two zeros are
  one value: the engine never tells them apart (\<^verbatim>\<open>===\<close>, \<^verbatim>\<open>includes\<close>, \<^verbatim>\<open><\<close> and string
  conversion all identify them).
\<close>

datatype jsnum = NaN | PosInf | NegInf | Fin rat

datatype jsval = Undefined | Null | Bool bool | Num jsnum | Str string

datatype error = SyntaxError

text \<open>
  What the language runtime supplies and the repository does not define: compiling a
  regular expression (\<open>None\<close> is the \<^verbatim>\<open>SyntaxError\<close> of \<^verbatim>\<open>new RegExp\<close> on an invalid
  pattern, otherwise the \<^verbatim>\<open>test\<close> function of the compiled pattern), reading a number
  out of a string (\<^verbatim>\<open>Number(s)\<close>), and printing a number that is not a small integer.
  Every function of the engine takes the runtime as its first argument.
\<close>

record host =
  RegExp :: "string \<Rightarrow> (string \<Rightarrow> bool) option"
  StringToNumber :: "string \<Rightarrow> jsnum"
  FractionToString :: "rat \<Rightarrow> string"

fun ToBoolean :: "jsval \<Rightarrow> bool" where
  "ToBoolean Undefined = False"
| "ToBoolean Null = False"
| "ToBoolean (Bool b) = b"
| "ToBoolean (Num n) = (n \<noteq> NaN \<and> n \<noteq> Fin 0)"
| "ToBoolean (Str s) = (s \<noteq> [])"

text \<open>\<^verbatim>\<open>Number(v)\<close>.\<close>

fun ToNumber :: "host \<Rightarrow> jsval \<Rightarrow> jsnum" where
  "ToNumber h Undefined = NaN"
| "ToNumber h Null = Fin 0"
| "ToNumber h (Bool b) = (if b then Fin 1 else Fin 0)"
| "ToNumber h (Num n) = n"
| "ToNumber h (Str s) = StringToNumber h s"

text \<open>\<^verbatim>\<open>a < b\<close> and \<^verbatim>\<open>a <= b\<close> on numbers: false as soon as one side is NaN.\<close>

fun js_less :: "jsnum \<Rightarrow> jsnum \<Rightarrow> bool" where
  "js_less NaN _ = False"
| "js_less _ NaN = False"
| "js_less (Fin x) (Fin y) = (x < y)"
| "js_less NegInf NegInf = False"
| "js_less NegInf _ = True"
| "js_less _ NegInf = False"
| "js_less PosInf _ = False"
| "js_less _ PosInf = True"

fun js_less_eq :: "jsnum \<Rightarrow> jsnum \<Rightarrow> bool" where
  "js_less_eq NaN _ = False"
| "js_less_eq _ NaN = False"
| "js_less_eq a b = (\<not> js_less b a)"

text \<open>\<^verbatim>\<open>a === b\<close>: same type and same value, and NaN differs from itself.\<close>

fun strict_equals :: "jsval \<Rightarrow> jsval \<Rightarrow> bool" where
  "strict_equals (Num a) (Num b) = (a \<noteq> NaN \<and> b \<noteq> NaN \<and> a = b)"
| "strict_equals a b = (a = b)"

text \<open>
  \<^verbatim>\<open>Array.prototype.includes\<close> compares with SameValueZero, which differs from
  \<^verbatim>\<open>===\<close> only in that NaN equals NaN: on these values it is equality.
\<close>

definition array_includes :: "jsval list \<Rightarrow> jsval \<Rightarrow> bool" where
  "array_includes xs v = (v \<in> set xs)"

subsection \<open>String conversion\<close>

definition digit_char :: "nat \<Rightarrow> char" where
  "digit_char d =
     (if d = 0 then CHR ''0'' else if d = 1 then CHR ''1'' else if d = 2 then CHR ''2''
      else if d = 3 then CHR ''3'' else if d = 4 then CHR ''4'' else if d = 5 then CHR ''5''
      else if d = 6 then CHR ''6'' else if d = 7 then CHR ''7'' else if d = 8 then CHR ''8''
      else CHR ''9'')"

fun string_of_nat :: "nat \<Rightarrow> string" where
  "string_of_nat n =
     (if n < 10 then [digit_char n]
      else string_of_nat (n div 10) @ [digit_char (n mod 10)])"

text \<open>
  \<^verbatim>\<open>Number.prototype.toString\<close>: an integer of magnitude up to \<open>2\<^sup>5\<^sup>3\<close> prints as its
  decimal digits. Every other finite number (a fraction, or a larger integer, of which
  JavaScript prints the shortest digits that read back as the same double) is printed by
  the runtime.
\<close>

definition NumberToString :: "host \<Rightarrow> jsnum \<Rightarrow> string" where
  "NumberToString h n =
     (case n of
        NaN \<Rightarrow> ''NaN''
      | PosInf \<Rightarrow> ''Infinity''
      | NegInf \<Rightarrow> ''-Infinity''
      | Fin q \<Rightarrow>
          if q = of_int \<lfloor>q\<rfloor> \<and> \<bar>q\<bar> \<le> 2 ^ 53
          then (if q < 0 then ''-'' @ string_of_nat (nat (- \<lfloor>q\<rfloor>))
                else string_of_nat (nat \<lfloor>q\<rfloor>))
          else FractionToString h q)"

text \<open>\<^verbatim>\<open>String(v)\<close>, which is also what a template literal does to \<^verbatim>\<open>${v}\<close>.\<close>

fun ToString :: "host \<Rightarrow> jsval \<Rightarrow> string" where
  "ToString h Undefined = ''undefined''"
| "ToString h Null = ''null''"
| "ToString h (Bool b) = (if b then ''true'' else ''false'')"
| "ToString h (Num n) = NumberToString h n"
| "ToString h (Str s) = s"

fun intercalate :: "string \<Rightarrow> string list \<Rightarrow> string" where
  "intercalate sep [] = []"
| "intercalate sep [x] = x"
| "intercalate sep (x # y # ys) = x @ sep @ intercalate sep (y # ys)"

text \<open>\<^verbatim>\<open>Array.prototype.join\<close>: \<^verbatim>\<open>undefined\<close> and \<^verbatim>\<open>null\<close> elements print as nothing.\<close>

definition join :: "host \<Rightarrow> jsval list \<Rightarrow> string \<Rightarrow> string" where
  "join h xs sep =
     intercalate sep (map (\<lambda>v. if v = Undefined \<or> v = Null then [] else ToString h v) xs)"

section \<open>Rulesets, attributes and results\<close>

text \<open>
  A rule is one object of the ruleset tree. \<open>rule_id\<close>, \<open>label\<close>, \<open>description\<close>, \<open>rule_unit\<close>
  and \<open>requirement\<close> are strings that may be absent; \<open>val\<close>, \<open>rule_min\<close> and \<open>rule_max\<close> are the
  scalars \<^verbatim>\<open>value\<close>, \<^verbatim>\<open>min\<close>, \<^verbatim>\<open>max\<close> (\<open>Undefined\<close> when absent); \<open>vals\<close> is the array
  \<^verbatim>\<open>values\<close>, or \<open>None\<close> when the rule has none. An absent \<^verbatim>\<open>conditions\<close> or \<^verbatim>\<open>any_of\<close>
  is the empty list: the engine treats the two alike (lines 93 and 100). An absent
  \<^verbatim>\<open>operator\<close> takes the \<^verbatim>\<open>default\<close> branch of both switches, as every string outside
  the twelve operators does.
\<close>

datatype rule = Rule
  (rule_id: "string option")
  (key: string)
  (operator: string)
  (val: jsval)
  (vals: "jsval list option")
  (rule_min: jsval)
  (rule_max: jsval)
  (rule_unit: "string option")
  (requirement: "string option")
  (label: "string option")
  (description: "string option")
  (conditions: "rule list")
  (any_of: "rule list")

record ruleset =
  rs_service_id :: string
  rs_name :: string
  rules :: "rule list"

text \<open>
  The attribute object, as the list of its own properties in enumeration order;
  \<^verbatim>\<open>attributes[key]\<close> is \<^verbatim>\<open>undefined\<close> for a key it does not have. The object is a
  plain record of scalars: no rule key names a property inherited from
  \<^verbatim>\<open>Object.prototype\<close>.
\<close>

type_synonym attributes = "(string \<times> jsval) list"

definition lookup :: "attributes \<Rightarrow> string \<Rightarrow> jsval" where
  "lookup attrs k = (case map_of attrs k of None \<Rightarrow> Undefined | Some v \<Rightarrow> v)"

definition Object_keys :: "attributes \<Rightarrow> string list" where
  "Object_keys attrs = map fst attrs"

record passed_entry =
  p_id :: "string option"
  p_key :: string
  p_label :: "string option"
  p_value :: jsval
  satisfied_by :: "string option"

record failed_entry =
  f_id :: "string option"
  f_key :: string
  f_label :: "string option"
  f_value :: jsval
  expected :: jsval
  f_message :: string
  severity :: "string option"

record skipped_entry =
  s_id :: "string option"
  s_key :: string
  s_label :: "string option"
  reason :: string
  s_message :: string

record error_entry =
  field :: string
  message :: string

record result =
  valid :: bool
  service_id :: string
  timestamp :: string
  changes :: attributes
  errors :: "error_entry list"
  passed :: "passed_entry list"
  failed :: "failed_entry list"
  skipped :: "skipped_entry list"
  data :: ruleset
  duration_ms :: "int option"

record event =
  ev_type :: string
  ev_timestamp :: string
  ev_service_id :: string
  ev_valid :: bool
  passed_count :: nat
  failed_count :: nat
  skipped_count :: nat
  ev_duration_ms :: "int option"
  ev_errors :: "error_entry list"
  attributes_provided :: "string list"

text \<open>
  The engine object: the \<^verbatim>\<open>logEvents\<close> option and the event log. The optional
  \<^verbatim>\<open>eventCallback\<close> is code of the caller; it sees the event and cannot change the
  result, and is left out.
\<close>

record engine =
  logEvents :: bool
  eventLog :: "event list"

section \<open>The condition evaluator\<close>

text \<open>
  \<^verbatim>\<open>evaluateCondition(rule, value, attributes)\<close>, lines 153-198. It returns a boolean,
  or \<^verbatim>\<open>undefined\<close> for \<^verbatim>\<open>in\<close> without \<^verbatim>\<open>values\<close> (\<^verbatim>\<open>rule.values?.includes(value)\<close>), or
  raises the \<^verbatim>\<open>SyntaxError\<close> of \<^verbatim>\<open>new RegExp\<close>. \<^verbatim>\<open>new RegExp(undefined)\<close> is the empty
  pattern.
\<close>

definition evaluateCondition :: "host \<Rightarrow> rule \<Rightarrow> jsval \<Rightarrow> error + jsval" where
  "evaluateCondition h rule v =
     (if operator rule = ''equals'' then Inr (Bool (strict_equals v (val rule)))
      else if operator rule = ''not_equals'' then Inr (Bool (\<not> strict_equals v (val rule)))
      else if operator rule = ''less_than'' then
        Inr (Bool (js_less (ToNumber h v) (ToNumber h (val rule))))
      else if operator rule = ''less_than_or_equal'' then
        Inr (Bool (js_less_eq (ToNumber h v) (ToNumber h (val rule))))
      else if operator rule = ''greater_than'' then
        Inr (Bool (js_less (ToNumber h (val rule)) (ToNumber h v)))
      else if operator rule = ''greater_than_or_equal'' then
        Inr (Bool (js_less_eq (ToNumber h (val rule)) (ToNumber h v)))
      else if operator rule = ''in'' then
        (case vals rule of None \<Rightarrow> Inr Undefined | Some xs \<Rightarrow> Inr (Bool (array_includes xs v)))
      else if operator rule = ''not_in'' then
        (case vals rule of None \<Rightarrow> Inr (Bool True) | Some xs \<Rightarrow> Inr (Bool (\<not> array_includes xs v)))
      else if operator rule = ''between'' then
        (let num = ToNumber h v
         in Inr (Bool (js_less_eq (ToNumber h (rule_min rule)) num \<and>
                       js_less_eq num (ToNumber h (rule_max rule)))))
      else if operator rule = ''exists'' then Inr (Bool (v \<noteq> Undefined \<and> v \<noteq> Null))
      else if operator rule = ''not_exists'' then Inr (Bool (v = Undefined \<or> v = Null))
      else if operator rule = ''matches'' then
        (case RegExp h (if val rule = Undefined then [] else ToString h (val rule)) of
           None \<Rightarrow> Inl SyntaxError
         | Some test \<Rightarrow> Inr (Bool (test (ToString h v))))
      else Inr (Bool False))"

text \<open>\<^verbatim>\<open>describeExpectation(rule)\<close>, lines 203-233.\<close>

definition unitStr :: "rule \<Rightarrow> string" where
  "unitStr rule = (case rule_unit rule of None \<Rightarrow> [] | Some u \<Rightarrow> if u = [] then [] else '' '' @ u)"

definition values_joined :: "host \<Rightarrow> rule \<Rightarrow> string" where
  "values_joined h rule =
     (case vals rule of None \<Rightarrow> ''undefined'' | Some xs \<Rightarrow> join h xs '', '')"

definition describeExpectation :: "host \<Rightarrow> rule \<Rightarrow> jsval" where
  "describeExpectation h rule =
     (if operator rule = ''equals'' then Str (ToString h (val rule) @ unitStr rule)
      else if operator rule = ''not_equals'' then
        Str (''not '' @ ToString h (val rule) @ unitStr rule)
      else if operator rule = ''less_than'' then
        Str (''< '' @ ToString h (val rule) @ unitStr rule)
      else if operator rule = ''less_than_or_equal'' then
        Str (''<= '' @ ToString h (val rule) @ unitStr rule)
      else if operator rule = ''greater_than'' then
        Str (''> '' @ ToString h (val rule) @ unitStr rule)
      else if operator rule = ''greater_than_or_equal'' then
        Str (''>= '' @ ToString h (val rule) @ unitStr rule)
      else if operator rule = ''in'' then Str (''one of ['' @ values_joined h rule @ '']'')
      else if operator rule = ''not_in'' then
        Str (''not one of ['' @ values_joined h rule @ '']'')
      else if operator rule = ''between'' then
        Str (''between '' @ ToString h (rule_min rule) @ '' and '' @ ToString h (rule_max rule)
             @ unitStr rule)
      else if operator rule = ''exists'' then Str ''exists''
      else if operator rule = ''not_exists'' then Str ''does not exist''
      else val rule)"

section \<open>The rule tree walker\<close>

text \<open>\<^verbatim>\<open>rule.label || rule.key\<close> and \<^verbatim>\<open>rule.description || `Does not meet ...`\<close>.\<close>

definition label_or_key :: "rule \<Rightarrow> string" where
  "label_or_key rule =
     (case label rule of None \<Rightarrow> key rule | Some l \<Rightarrow> if l = [] then key rule else l)"

definition error_of :: "rule \<Rightarrow> error_entry" where
  "error_of rule =
     \<lparr>field = key rule,
      message = (case description rule of
                   None \<Rightarrow> ''Does not meet '' @ label_or_key rule @ '' requirement''
                 | Some d \<Rightarrow> if d = [] then ''Does not meet '' @ label_or_key rule @ '' requirement''
                            else d)\<rparr>"

definition skipped_of :: "rule \<Rightarrow> skipped_entry" where
  "skipped_of rule =
     \<lparr>s_id = rule_id rule, s_key = key rule, s_label = label rule,
      reason = ''missing_attribute'',
      s_message = ''Missing required attribute: '' @ key rule\<rparr>"

definition passed_of :: "rule \<Rightarrow> jsval \<Rightarrow> string option \<Rightarrow> passed_entry" where
  "passed_of rule v tag =
     \<lparr>p_id = rule_id rule, p_key = key rule, p_label = label rule, p_value = v,
      satisfied_by = tag\<rparr>"

definition failed_of :: "host \<Rightarrow> rule \<Rightarrow> jsval \<Rightarrow> failed_entry" where
  "failed_of h rule v =
     (if requirement rule = Some ''disqualifying'' then
        \<lparr>f_id = rule_id rule, f_key = key rule, f_label = label rule, f_value = v,
         expected = describeExpectation h rule,
         f_message = ''Disqualifying condition: '' @ label_or_key rule,
         severity = Some ''disqualifying''\<rparr>
      else
        \<lparr>f_id = rule_id rule, f_key = key rule, f_label = label rule, f_value = v,
         expected = describeExpectation h rule,
         f_message = ''Requirement not met: '' @ label_or_key rule,
         severity = None\<rparr>)"

text \<open>
  \<^verbatim>\<open>rule.any_of.some(alt => this.evaluateCondition(alt, attributes[alt.key], attributes))\<close>,
  lines 101-104: the alternatives are tried in order up to the first one that passes;
  an alternative that raises ends the call.
\<close>

fun anyPassed :: "host \<Rightarrow> rule list \<Rightarrow> attributes \<Rightarrow> error + bool" where
  "anyPassed h [] attrs = Inr False"
| "anyPassed h (alt # alts) attrs =
     (case evaluateCondition h alt (lookup attrs (key alt)) of
        Inl e \<Rightarrow> Inl e
      | Inr b \<Rightarrow> if ToBoolean b then Inr True else anyPassed h alts attrs)"

text \<open>The branch of lines 118-146, taken when the rule failed and no alternative passed.\<close>

definition record_failure :: "host \<Rightarrow> rule \<Rightarrow> jsval \<Rightarrow> result \<Rightarrow> result" where
  "record_failure h rule v res =
     (if requirement rule = Some ''disqualifying'' \<or> requirement rule \<noteq> Some ''optional''
      then res\<lparr>failed := failed res @ [failed_of h rule v],
               errors := errors res @ [error_of rule]\<rparr>
      else res)"

text \<open>
  \<^verbatim>\<open>evaluateRule(rule, attributes, result)\<close>, lines 62-148, with the result passed in
  and returned; \<open>evaluateRules\<close> is the loop \<^verbatim>\<open>for (const rule of ...) this.evaluateRule(...)\<close>
  of lines 42-44 and 94-96. An exception leaves both.
\<close>

function evaluateRule :: "host \<Rightarrow> rule \<Rightarrow> attributes \<Rightarrow> result \<Rightarrow> error + result"
  and evaluateRules :: "host \<Rightarrow> rule list \<Rightarrow> attributes \<Rightarrow> result \<Rightarrow> error + result"
where
  "evaluateRule h rule attrs res =
     (let v = lookup attrs (key rule)
      in if v = Undefined \<and> operator rule \<noteq> ''not_exists'' then
           (if requirement rule \<noteq> Some ''optional''
            then Inr (res\<lparr>skipped := skipped res @ [skipped_of rule]\<rparr>)
            else Inr res)
         else
           (case evaluateCondition h rule v of
              Inl e \<Rightarrow> Inl e
            | Inr p \<Rightarrow>
                if ToBoolean p then
                  evaluateRules h (conditions rule) attrs
                    (res\<lparr>passed := passed res @ [passed_of rule v None]\<rparr>)
                else if any_of rule \<noteq> [] then
                  (case anyPassed h (any_of rule) attrs of
                     Inl e \<Rightarrow> Inl e
                   | Inr a \<Rightarrow>
                       if a then
                         Inr (res\<lparr>passed := passed res @ [passed_of rule v (Some ''alternative'')]\<rparr>)
                       else Inr (record_failure h rule v res))
                else Inr (record_failure h rule v res)))"
| "evaluateRules h [] attrs res = Inr res"
| "evaluateRules h (r # rs) attrs res =
     (case evaluateRule h r attrs res of
        Inl e \<Rightarrow> Inl e
      | Inr res' \<Rightarrow> evaluateRules h rs attrs res')"
  by pat_completeness auto
termination
proof (relation "measure (\<lambda>x. case x of
        Inl (_, r, _, _) \<Rightarrow> size r
      | Inr (_, rs, _, _) \<Rightarrow> size_list size rs)")
  fix rule :: rule
  have "size_list size (conditions rule) < size rule"
    by (cases rule) simp
  then show "\<And>h attrs res x xa xb.
      (Inr (h, conditions rule, attrs, res\<lparr>passed := passed res @ [passed_of rule x None]\<rparr>),
       Inl (h, rule, attrs, res))
      \<in> measure (\<lambda>x. case x of
            Inl (_, r, _, _) \<Rightarrow> size r
          | Inr (_, rs, _, _) \<Rightarrow> size_list size rs)"
    by simp
qed simp_all

section \<open>The result aggregator and the audit log\<close>

text \<open>\<^verbatim>\<open>createEvent(result)\<close>, lines 238-255.\<close>

definition createEvent :: "result \<Rightarrow> event" where
  "createEvent res =
     \<lparr>ev_type = ''validation'',
      ev_timestamp = timestamp res,
      ev_service_id = service_id res,
      ev_valid = valid res,
      passed_count = length (passed res),
      failed_count = length (failed res),
      skipped_count = length (skipped res),
      ev_duration_ms = duration_ms res,
      ev_errors = map (\<lambda>e. \<lparr>field = field e, message = message e\<rparr>) (errors res),
      attributes_provided = Object_keys (changes res)\<rparr>"

definition logEvent :: "engine \<Rightarrow> event \<Rightarrow> engine" where
  "logEvent eng ev = eng\<lparr>eventLog := eventLog eng @ [ev]\<rparr>"

text \<open>
  \<^verbatim>\<open>validate(ruleset, attributes)\<close>, lines 27-57. The clock is an input: \<open>startTime\<close>
  and \<open>endTime\<close> are the two readings of \<^verbatim>\<open>Date.now()\<close>, \<open>now\<close> is
  \<^verbatim>\<open>new Date().toISOString()\<close>. It returns the result and the engine with its log.
\<close>

definition initial_result :: "string \<Rightarrow> ruleset \<Rightarrow> attributes \<Rightarrow> result" where
  "initial_result now rs attrs =
     \<lparr>valid = True, service_id = rs_service_id rs, timestamp = now, changes = attrs,
      errors = [], passed = [], failed = [], skipped = [], data = rs,
      duration_ms = None\<rparr>"

definition validate ::
  "host \<Rightarrow> engine \<Rightarrow> int \<Rightarrow> string \<Rightarrow> int \<Rightarrow> ruleset \<Rightarrow> attributes \<Rightarrow> error + (result \<times> engine)"
where
  "validate h eng startTime now endTime rs attrs =
     (case evaluateRules h (rules rs) attrs (initial_result now rs attrs) of
        Inl e \<Rightarrow> Inl e
      | Inr res \<Rightarrow>
          (let res1 = res\<lparr>valid := (length (failed res) = 0)\<rparr>;
               res2 = res1\<lparr>duration_ms := Some (endTime - startTime)\<rparr>;
               ev = createEvent res2
           in Inr (res2, if logEvents eng then logEvent eng ev else eng)))"

section \<open>Worked data\<close>


text \<open>
  A runtime for the worked examples. \<^verbatim>\<open>new RegExp('(')\<close> raises (an unterminated
  group); no example tests a string against a valid pattern, and the runtime compares
  the string with the pattern there. \<^verbatim>\<open>Number('')\<close> is 0 and \<^verbatim>\<open>Number('sixty')\<close> is NaN;
  no example reads a numeral out of a string or prints a fraction.
\<close>

definition sample_host :: host where
  "sample_host =
     \<lparr>RegExp = (\<lambda>p. if p = ''('' then None else Some (\<lambda>s. p = s)),
      StringToNumber = (\<lambda>s. if s = [] then Fin 0 else NaN),
      FractionToString = (\<lambda>q. ''?'')\<rparr>"

definition sample_engine :: engine where
  "sample_engine = \<lparr>logEvents = True, eventLog = []\<rparr>"

definition sample_ruleset :: "rule list \<Rightarrow> ruleset" where
  "sample_ruleset rs = \<lparr>rs_service_id = ''svc'', rs_name = ''Service'', rules = rs\<rparr>"

text \<open>\<^verbatim>\<open>{key:'age', operator:'less_than_or_equal', value:65, requirement:'required'}\<close>\<close>

definition age_rule :: rule where
  "age_rule = Rule None ''age'' ''less_than_or_equal'' (Num (Fin 65)) None Undefined Undefined
     None (Some ''required'') None None [] []"

text \<open>
  \<^verbatim>\<open>{id:'age-limit', key:'age', operator:'less_than', value:65, requirement:'required',
  label:'Age limit'}\<close>
\<close>

definition age_limit_rule :: rule where
  "age_limit_rule = Rule (Some ''age-limit'') ''age'' ''less_than'' (Num (Fin 65)) None
     Undefined Undefined None (Some ''required'') (Some ''Age limit'') None [] []"

text \<open>\<^verbatim>\<open>{id:'zip', key:'zip', operator:'matches', value:'(', requirement:'required'}\<close>\<close>

definition zip_rule :: rule where
  "zip_rule = Rule (Some ''zip'') ''zip'' ''matches'' (Str ''('') None
     Undefined Undefined None (Some ''required'') None None [] []"

text \<open>
  \<^verbatim>\<open>{id:'alt-1', key:'has_disability', operator:'equals', value:true, description:...}\<close>
  and \<^verbatim>\<open>{id:'alt-2', key:'has_dependent_child', operator:'equals', value:true,
  description:...}\<close>, the alternatives of the contribution guide.
\<close>

definition disability_alt :: rule where
  "disability_alt = Rule (Some ''alt-1'') ''has_disability'' ''equals'' (Bool True) None
     Undefined Undefined None None None (Some ''Has a disability'') [] []"

definition child_alt :: rule where
  "child_alt = Rule (Some ''alt-2'') ''has_dependent_child'' ''equals'' (Bool True) None
     Undefined Undefined None None None (Some ''Cares for dependent child'') [] []"


text \<open>\<^verbatim>\<open>{key:'state', operator:'not_in'}\<close> and \<^verbatim>\<open>{key:'state', operator:'in'}\<close>, without \<^verbatim>\<open>values\<close>.\<close>

definition not_in_rule :: rule where
  "not_in_rule = Rule None ''state'' ''not_in'' Undefined None
     Undefined Undefined None None None None [] []"

definition in_rule :: rule where
  "in_rule = Rule None ''state'' ''in'' Undefined None
     Undefined Undefined None None None None [] []"

text \<open>
  \<^verbatim>\<open>{key:'age', operator:'greater_than', value:18}\<close> and
  \<^verbatim>\<open>{key:'age', operator:'greater_than_or_equal', value:18}\<close>
\<close>

definition older_rule :: rule where
  "older_rule = Rule None ''age'' ''greater_than'' (Num (Fin 18)) None Undefined Undefined
     None None None None [] []"

definition adult_rule :: rule where
  "adult_rule = Rule None ''age'' ''greater_than_or_equal'' (Num (Fin 18)) None Undefined
     Undefined None None None None [] []"

text \<open>\<^verbatim>\<open>{key:'age', operator:'between', min:18, max:49, requirement:'required'}\<close>\<close>

definition between_rule :: rule where
  "between_rule = Rule None ''age'' ''between'' Undefined None (Num (Fin 18)) (Num (Fin 49))
     None (Some ''required'') None None [] []"

text \<open>
  \<^verbatim>\<open>{id:'work', key:'employed', operator:'equals', value:true, requirement:'required',
  label:'Employment', conditions:[...], any_of:[...]}\<close>, with the age-limit rule nested
  under it and the two alternatives above.
\<close>

definition work_rule :: rule where
  "work_rule = Rule (Some ''work'') ''employed'' ''equals'' (Bool True) None
     Undefined Undefined None (Some ''required'') (Some ''Employment'') None
     [age_limit_rule] [disability_alt, child_alt]"

text \<open>
  \<^verbatim>\<open>{id:'work', key:'employed', operator:'equals', value:true, requirement:'optional',
  label:'Employment', any_of:[{key:'has_dependent_child', ...}]}\<close>
\<close>

definition opt_work_rule :: rule where
  "opt_work_rule = Rule (Some ''work'') ''employed'' ''equals'' (Bool True) None
     Undefined Undefined None (Some ''optional'') (Some ''Employment'') None
     [] [child_alt]"

text \<open>\<^verbatim>\<open>{id:'state', key:'state', operator:'not_equals', value:'TX', requirement:'optional'}\<close>\<close>

definition opt_state_rule :: rule where
  "opt_state_rule = Rule (Some ''state'') ''state'' ''not_equals'' (Str ''TX'') None
     Undefined Undefined None (Some ''optional'') None None [] []"

section \<open>Notions used to state the properties\<close>

text \<open>The nodes of a rule tree: the rule and everything nested under its \<^verbatim>\<open>conditions\<close>.\<close>

primrec rule_nodes :: "rule \<Rightarrow> rule list" where
  "rule_nodes (Rule i k op v vs mn mx u rq lb ds cs alts) =
     Rule i k op v vs mn mx u rq lb ds cs alts # concat (map rule_nodes cs)"

text \<open>
  \<open>extends_by ns res res'\<close>: the result \<open>res'\<close> is \<open>res\<close> with entries appended to its four
  lists, every entry made from one of the rules \<open>ns\<close>, and nothing else changed.
\<close>

definition extends_by :: "rule list \<Rightarrow> result \<Rightarrow> result \<Rightarrow> bool" where
  "extends_by ns res res' \<longleftrightarrow>
     (\<exists>ps fs ss es.
        passed res' = passed res @ ps \<and> failed res' = failed res @ fs \<and>
        skipped res' = skipped res @ ss \<and> errors res' = errors res @ es \<and>
        p_id ` set ps \<subseteq> rule_id ` set ns \<and> f_id ` set fs \<subseteq> rule_id ` set ns \<and>
        s_id ` set ss \<subseteq> rule_id ` set ns \<and> set es \<subseteq> error_of ` set ns) \<and>
     valid res' = valid res \<and> service_id res' = service_id res \<and>
     timestamp res' = timestamp res \<and> changes res' = changes res \<and>
     data res' = data res \<and> duration_ms res' = duration_ms res"

text \<open>
  The three tests of \<open>evaluateRule\<close>: the guard of line 67 (the attribute is
  \<^verbatim>\<open>undefined\<close> and the operator is not \<^verbatim>\<open>not_exists\<close>), \<^verbatim>\<open>if (passed)\<close> of line 84
  (the condition returned a truthy value), and \<^verbatim>\<open>if (anyPassed)\<close> of lines 100-106.
\<close>

definition missing :: "attributes \<Rightarrow> rule \<Rightarrow> bool" where
  "missing attrs r \<longleftrightarrow> lookup attrs (key r) = Undefined \<and> operator r \<noteq> ''not_exists''"

definition condition_passes :: "host \<Rightarrow> attributes \<Rightarrow> rule \<Rightarrow> bool" where
  "condition_passes h attrs r \<longleftrightarrow>
     (case evaluateCondition h r (lookup attrs (key r)) of
        Inl e \<Rightarrow> False
      | Inr p \<Rightarrow> ToBoolean p)"

definition alternative_passes :: "host \<Rightarrow> attributes \<Rightarrow> rule \<Rightarrow> bool" where
  "alternative_passes h attrs r \<longleftrightarrow> any_of r \<noteq> [] \<and> anyPassed h (any_of r) attrs = Inr True"

text \<open>
  The nodes on which \<open>evaluateRule\<close> is called when it is called on a rule, in call
  order: the rule, and the nodes processed under its \<^verbatim>\<open>conditions\<close> when the guard let
  it through and its own condition passed (lines 93-97).
\<close>

primrec processed :: "host \<Rightarrow> attributes \<Rightarrow> rule \<Rightarrow> rule list" where
  "processed h attrs (Rule i k op v vs mn mx u rq lb ds cs alts) =
     Rule i k op v vs mn mx u rq lb ds cs alts #
     (if \<not> missing attrs (Rule i k op v vs mn mx u rq lb ds cs alts) \<and>
         condition_passes h attrs (Rule i k op v vs mn mx u rq lb ds cs alts)
      then concat (map (processed h attrs) cs) else [])"

text \<open>The entries a processed node itself adds to each list: one at most, or none.\<close>

definition own_passed :: "host \<Rightarrow> attributes \<Rightarrow> rule \<Rightarrow> passed_entry list" where
  "own_passed h attrs r =
     (if missing attrs r then []
      else if condition_passes h attrs r then [passed_of r (lookup attrs (key r)) None]
      else if alternative_passes h attrs r
        then [passed_of r (lookup attrs (key r)) (Some ''alternative'')]
      else [])"

definition own_failed :: "host \<Rightarrow> attributes \<Rightarrow> rule \<Rightarrow> failed_entry list" where
  "own_failed h attrs r =
     (if missing attrs r \<or> condition_passes h attrs r \<or> alternative_passes h attrs r \<or>
         requirement r = Some ''optional''
      then [] else [failed_of h r (lookup attrs (key r))])"

definition own_skipped :: "attributes \<Rightarrow> rule \<Rightarrow> skipped_entry list" where
  "own_skipped attrs r =
     (if missing attrs r \<and> requirement r \<noteq> Some ''optional'' then [skipped_of r] else [])"

section \<open>Properties\<close>

declare evaluateRule.simps [simp del]

lemma js_less_NaN [simp]: "js_less a NaN = False"
  by (cases a) simp_all

lemma js_less_eq_NaN [simp]: "js_less_eq a NaN = False"
  by (cases a) simp_all


subsection \<open>What one call appends\<close>

text \<open>
  Processing a rule, or a list of rules, only appends to \<open>passed\<close>, \<open>failed\<close>, \<open>skipped\<close>
  and \<open>errors\<close>, and each appended entry comes from a node of the trees processed.
\<close>

lemma rule_nodes_unfold: "rule_nodes r = r # concat (map rule_nodes (conditions r))"
  by (cases r) simp

lemma extends_by_refl: "extends_by ns res res"
  by (simp add: extends_by_def)

lemma extends_byE:
  assumes "extends_by ns res res'"
  obtains ps fs ss es where "passed res' = passed res @ ps" "failed res' = failed res @ fs"
    "skipped res' = skipped res @ ss" "errors res' = errors res @ es"
    "p_id ` set ps \<subseteq> rule_id ` set ns" "f_id ` set fs \<subseteq> rule_id ` set ns"
    "s_id ` set ss \<subseteq> rule_id ` set ns" "set es \<subseteq> error_of ` set ns"
    "valid res' = valid res" "service_id res' = service_id res"
    "timestamp res' = timestamp res" "changes res' = changes res"
    "data res' = data res" "duration_ms res' = duration_ms res"
  using assms unfolding extends_by_def by (elim conjE exE)

lemma extends_byI:
  assumes "passed res' = passed res @ ps" "failed res' = failed res @ fs"
    "skipped res' = skipped res @ ss" "errors res' = errors res @ es"
    "p_id ` set ps \<subseteq> rule_id ` set ns" "f_id ` set fs \<subseteq> rule_id ` set ns"
    "s_id ` set ss \<subseteq> rule_id ` set ns" "set es \<subseteq> error_of ` set ns"
    "valid res' = valid res" "service_id res' = service_id res"
    "timestamp res' = timestamp res" "changes res' = changes res"
    "data res' = data res" "duration_ms res' = duration_ms res"
  shows "extends_by ns res res'"
  unfolding extends_by_def using assms
  by (intro conjI exI [of _ ps] exI [of _ fs] exI [of _ ss] exI [of _ es])

lemma extends_by_trans:
  assumes "extends_by ns1 res res1" and "extends_by ns2 res1 res2"
  shows "extends_by (ns1 @ ns2) res res2"
proof -
  from assms(1) obtain ps fs ss es where 1:
    "passed res1 = passed res @ ps" "failed res1 = failed res @ fs"
    "skipped res1 = skipped res @ ss" "errors res1 = errors res @ es"
    "p_id ` set ps \<subseteq> rule_id ` set ns1" "f_id ` set fs \<subseteq> rule_id ` set ns1"
    "s_id ` set ss \<subseteq> rule_id ` set ns1" "set es \<subseteq> error_of ` set ns1"
    "valid res1 = valid res" "service_id res1 = service_id res"
    "timestamp res1 = timestamp res" "changes res1 = changes res"
    "data res1 = data res" "duration_ms res1 = duration_ms res"
    by (rule extends_byE)
  from assms(2) obtain ps' fs' ss' es' where 2:
    "passed res2 = passed res1 @ ps'" "failed res2 = failed res1 @ fs'"
    "skipped res2 = skipped res1 @ ss'" "errors res2 = errors res1 @ es'"
    "p_id ` set ps' \<subseteq> rule_id ` set ns2" "f_id ` set fs' \<subseteq> rule_id ` set ns2"
    "s_id ` set ss' \<subseteq> rule_id ` set ns2" "set es' \<subseteq> error_of ` set ns2"
    "valid res2 = valid res1" "service_id res2 = service_id res1"
    "timestamp res2 = timestamp res1" "changes res2 = changes res1"
    "data res2 = data res1" "duration_ms res2 = duration_ms res1"
    by (rule extends_byE)
  show ?thesis
  proof (rule extends_byI [where ps = "ps @ ps'" and fs = "fs @ fs'" and ss = "ss @ ss'"
        and es = "es @ es'"])
    show "p_id ` set (ps @ ps') \<subseteq> rule_id ` set (ns1 @ ns2)"
      using 1(5) 2(5) by auto
    show "f_id ` set (fs @ fs') \<subseteq> rule_id ` set (ns1 @ ns2)"
      using 1(6) 2(6) by auto
    show "s_id ` set (ss @ ss') \<subseteq> rule_id ` set (ns1 @ ns2)"
      using 1(7) 2(7) by auto
    show "set (es @ es') \<subseteq> error_of ` set (ns1 @ ns2)"
      using 1(8) 2(8) by auto
  qed (simp_all add: 1 2)
qed

lemma extends_by_skipped: "extends_by [r] res (res\<lparr>skipped := skipped res @ [skipped_of r]\<rparr>)"
  by (simp add: extends_by_def skipped_of_def)

lemma extends_by_passed: "extends_by [r] res (res\<lparr>passed := passed res @ [passed_of r v t]\<rparr>)"
  by (simp add: extends_by_def passed_of_def)

lemma extends_by_failure: "extends_by [r] res (record_failure h r v res)"
  by (simp add: extends_by_def record_failure_def failed_of_def)

lemma extends_by_mono:
  assumes "extends_by ns res res'" and "set ns \<subseteq> set ms"
  shows "extends_by ms res res'"
proof -
  from assms(1) obtain ps fs ss es where 1:
    "passed res' = passed res @ ps" "failed res' = failed res @ fs"
    "skipped res' = skipped res @ ss" "errors res' = errors res @ es"
    "p_id ` set ps \<subseteq> rule_id ` set ns" "f_id ` set fs \<subseteq> rule_id ` set ns"
    "s_id ` set ss \<subseteq> rule_id ` set ns" "set es \<subseteq> error_of ` set ns"
    "valid res' = valid res" "service_id res' = service_id res"
    "timestamp res' = timestamp res" "changes res' = changes res"
    "data res' = data res" "duration_ms res' = duration_ms res"
    by (rule extends_byE)
  show ?thesis
  proof (rule extends_byI [where ps = ps and fs = fs and ss = ss and es = es])
    show "p_id ` set ps \<subseteq> rule_id ` set ms" using 1(5) assms(2) by blast
    show "f_id ` set fs \<subseteq> rule_id ` set ms" using 1(6) assms(2) by blast
    show "s_id ` set ss \<subseteq> rule_id ` set ms" using 1(7) assms(2) by blast
    show "set es \<subseteq> error_of ` set ms" using 1(8) assms(2) by blast
  qed (simp_all add: 1)
qed

lemma evaluateRule_cases:
  assumes "evaluateRule h r attrs res = Inr res'"
  shows "(\<exists>p. \<not> (lookup attrs (key r) = Undefined \<and> operator r \<noteq> ''not_exists'') \<and>
            evaluateCondition h r (lookup attrs (key r)) = Inr p \<and> ToBoolean p \<and>
            evaluateRules h (conditions r) attrs
              (res\<lparr>passed := passed res @ [passed_of r (lookup attrs (key r)) None]\<rparr>) = Inr res')
       \<or> res' = res
       \<or> res' = res\<lparr>skipped := skipped res @ [skipped_of r]\<rparr>
       \<or> res' = res\<lparr>passed := passed res @ [passed_of r (lookup attrs (key r)) (Some ''alternative'')]\<rparr>
       \<or> res' = record_failure h r (lookup attrs (key r)) res"
  using assms
  by (simp add: evaluateRule.simps Let_def split: if_splits sum.splits)

lemma evaluate_extends:
  "evaluateRule h r attrs res = Inr res' \<Longrightarrow> extends_by (rule_nodes r) res res'"
  "evaluateRules h rs attrs res = Inr res' \<Longrightarrow> extends_by (concat (map rule_nodes rs)) res res'"
proof (induction h r attrs res and h rs attrs res arbitrary: res' and res'
    rule: evaluateRule_evaluateRules.induct)
  case (1 h rule attrs res)
  let ?v = "lookup attrs (key rule)"
  have own: "extends_by (rule_nodes rule) res res'" if "extends_by [rule] res res'"
    using that by (rule extends_by_mono) (simp add: rule_nodes_unfold [of rule])
  from evaluateRule_cases [OF "1.prems"]
  consider (pass) p where "\<not> (?v = Undefined \<and> operator rule \<noteq> ''not_exists'')"
      "evaluateCondition h rule ?v = Inr p" "ToBoolean p"
      "evaluateRules h (conditions rule) attrs
         (res\<lparr>passed := passed res @ [passed_of rule ?v None]\<rparr>) = Inr res'"
    | (none) "res' = res"
    | (skip) "res' = res\<lparr>skipped := skipped res @ [skipped_of rule]\<rparr>"
    | (alt) "res' = res\<lparr>passed := passed res @ [passed_of rule ?v (Some ''alternative'')]\<rparr>"
    | (fail) "res' = record_failure h rule ?v res"
    by blast
  then show ?case
  proof cases
    case pass
    from "1.IH" [OF refl pass(1) pass(2) pass(3) pass(4)]
    have "extends_by (concat (map rule_nodes (conditions rule)))
        (res\<lparr>passed := passed res @ [passed_of rule ?v None]\<rparr>) res'" .
    from extends_by_trans [OF extends_by_passed this]
    show ?thesis by (simp add: rule_nodes_unfold [of rule])
  next
    case none
    then show ?thesis by (simp add: extends_by_refl)
  next
    case skip
    then show ?thesis using own extends_by_skipped by simp
  next
    case alt
    then show ?thesis using own extends_by_passed by simp
  next
    case fail
    then show ?thesis using own extends_by_failure by simp
  qed
next
  case (2 h attrs res)
  then show ?case by (simp add: extends_by_refl)
next
  case (3 h r rs attrs res)
  from "3.prems" obtain res1 where r1: "evaluateRule h r attrs res = Inr res1"
    and r2: "evaluateRules h rs attrs res1 = Inr res'"
    by (auto split: sum.splits)
  from extends_by_trans [OF "3.IH"(1) [OF r1] "3.IH"(2) [OF r1 r2]]
  show ?case by simp
qed


subsection \<open>Validity\<close>

text \<open>
  C1. Whenever \<open>validate\<close> returns a result, its \<open>valid\<close> flag is true exactly when the
  \<open>failed\<close> list is empty, whatever the \<open>skipped\<close> list holds. The witness is a run whose
  only rule is skipped for a missing attribute: the result is valid.
\<close>

theorem validate_valid_iff_no_failed:
  assumes "validate h eng startTime now endTime rs attrs = Inr (res, eng')"
  shows "valid res = (failed res = [])"
  using assms by (auto simp: validate_def Let_def split: sum.splits)

theorem validate_valid_iff_no_failed_witness:
  "\<exists>res eng'.
     validate sample_host sample_engine 0 ''t'' 1 (sample_ruleset [age_rule]) [] = Inr (res, eng')
     \<and> skipped res \<noteq> [] \<and> failed res = [] \<and> valid res"
proof -
  obtain res eng'
    where v: "validate sample_host sample_engine 0 ''t'' 1 (sample_ruleset [age_rule]) []
                = Inr (res, eng')"
      and s: "skipped res \<noteq> []" "failed res = []"
    by (simp add: validate_def sample_ruleset_def age_rule_def evaluateRule.simps lookup_def
        initial_result_def Let_def)
  from validate_valid_iff_no_failed [OF v] s v show ?thesis by simp
qed

subsection \<open>Missing attributes\<close>

text \<open>
  What line 67 does for a key the attribute object does not have (the value is
  \<^verbatim>\<open>undefined\<close>): the rule is skipped, or dropped when optional, and nothing below it is
  looked at.
\<close>

lemma evaluateRule_undefined:
  assumes "lookup attrs (key r) = Undefined" and "operator r \<noteq> ''not_exists''"
  shows "evaluateRule h r attrs res =
     Inr (if requirement r \<noteq> Some ''optional''
          then res\<lparr>skipped := skipped res @ [skipped_of r]\<rparr> else res)"
  using assms by (simp add: evaluateRule.simps)

text \<open>
  C3. The claim wants a rule whose attribute is \<^verbatim>\<open>null\<close> skipped like one whose
  attribute is absent. Line 67 tests \<^verbatim>\<open>value === undefined\<close> only, so \<^verbatim>\<open>null\<close> reaches
  \<open>evaluateCondition\<close>: with \<^verbatim>\<open>{age: null}\<close> the rule \<^verbatim>\<open>age < 65\<close> is evaluated,
  \<^verbatim>\<open>Number(null)\<close> is 0, and the rule is recorded as passed with nothing skipped.
\<close>

theorem null_attribute_evaluated_not_skipped:
  "\<exists>res eng'.
     validate h eng startTime now endTime (sample_ruleset [age_limit_rule]) [(''age'', Null)]
       = Inr (res, eng')
     \<and> skipped res = []
     \<and> passed res = [passed_of age_limit_rule Null None]
     \<and> failed res = [] \<and> valid res"
  by (simp add: validate_def sample_ruleset_def evaluateRule.simps age_limit_rule_def lookup_def
      evaluateCondition_def initial_result_def Let_def)

subsection \<open>Operators\<close>

text \<open>
  C5. A numeric operator applied to an attribute value that \<^verbatim>\<open>Number\<close> turns into NaN
  returns \<^verbatim>\<open>false\<close>, whatever the operands of the rule are.
\<close>

theorem numeric_operator_fails_closed:
  assumes "ToNumber h v = NaN"
    and "operator r \<in> {''less_than'', ''less_than_or_equal'', ''greater_than'',
                        ''greater_than_or_equal'', ''between''}"
  shows "evaluateCondition h r v = Inr (Bool False)"
  using assms by (auto simp: evaluateCondition_def)

theorem numeric_operator_fails_closed_witness:
  "ToNumber sample_host (Str ''sixty'') = NaN
   \<and> operator age_rule \<in> {''less_than'', ''less_than_or_equal'', ''greater_than'',
                           ''greater_than_or_equal'', ''between''}
   \<and> evaluateCondition sample_host age_rule (Str ''sixty'') = Inr (Bool False)"
proof -
  have n: "ToNumber sample_host (Str ''sixty'') = NaN"
    by (simp add: sample_host_def)
  have o: "operator age_rule \<in> {''less_than'', ''less_than_or_equal'', ''greater_than'',
                                 ''greater_than_or_equal'', ''between''}"
    by (simp add: age_rule_def)
  from numeric_operator_fails_closed [OF n o] n o show ?thesis by simp
qed

text \<open>The only error is the \<^verbatim>\<open>SyntaxError\<close>; a rule that always raises ends every loop it is in.\<close>

lemma error_is_SyntaxError: "(e :: error) = SyntaxError"
  by (cases e) simp

lemma evaluateRules_raises:
  assumes "r \<in> set rs" and "\<And>res. evaluateRule h r attrs res = Inl SyntaxError"
  shows "evaluateRules h rs attrs res = Inl SyntaxError"
  using assms(1)
proof (induction rs arbitrary: res)
  case Nil
  then show ?case by simp
next
  case (Cons x xs)
  show ?case
  proof (cases "evaluateRule h x attrs res")
    case (Inl e)
    then show ?thesis by (simp add: error_is_SyntaxError [of e])
  next
    case (Inr res')
    with assms(2) have "x \<noteq> r" by auto
    with Cons.prems have "r \<in> set xs" by simp
    from Cons.IH [OF this] Inr show ?thesis by simp
  qed
qed

text \<open>
  C6, as the code has it. \<^verbatim>\<open>new RegExp(rule.value)\<close> on line 192 raises on an invalid
  pattern and nothing in the engine catches it. When a top-level rule with operator
  \<^verbatim>\<open>matches\<close> has an invalid pattern and its attribute is present, processing that
  rule raises, and \<open>validate\<close> returns no result: the run ends with the
  \<^verbatim>\<open>SyntaxError\<close>, whatever the other rules are.
\<close>

theorem invalid_regex_aborts_validate:
  assumes "operator r = ''matches''" and "val r = Str p" and "RegExp h p = None"
    and "lookup attrs (key r) \<noteq> Undefined" and "r \<in> set (rules rs)"
  shows "evaluateRule h r attrs res = Inl SyntaxError \<and>
         validate h eng startTime now endTime rs attrs = Inl SyntaxError"
proof -
  have e: "evaluateRule h r attrs res = Inl SyntaxError" for res
    using assms(1-4) by (simp add: evaluateRule.simps evaluateCondition_def)
  from evaluateRules_raises [OF assms(5) e]
  have "validate h eng startTime now endTime rs attrs = Inl SyntaxError"
    by (simp add: validate_def)
  with e show ?thesis by simp
qed

theorem invalid_regex_aborts_validate_witness:
  "evaluateRule sample_host zip_rule [(''age'', Num (Fin 30)), (''zip'', Str ''10001'')]
     (initial_result ''t'' (sample_ruleset [age_rule, zip_rule]) []) = Inl SyntaxError
   \<and> validate sample_host sample_engine 0 ''t'' 1 (sample_ruleset [age_rule, zip_rule])
     [(''age'', Num (Fin 30)), (''zip'', Str ''10001'')] = Inl SyntaxError"
proof -
  let ?a = "[(''age'', Num (Fin 30)), (''zip'', Str ''10001'')]"
  have 1: "operator zip_rule = ''matches''" by (simp add: zip_rule_def)
  have 2: "val zip_rule = Str ''(''" by (simp add: zip_rule_def)
  have 3: "RegExp sample_host ''('' = None" by (simp add: sample_host_def)
  have 4: "lookup ?a (key zip_rule) \<noteq> Undefined" by (simp add: zip_rule_def lookup_def)
  have 5: "zip_rule \<in> set (rules (sample_ruleset [age_rule, zip_rule]))"
    by (simp add: sample_ruleset_def)
  from invalid_regex_aborts_validate [OF 1 2 3 4 5]
  show ?thesis by blast
qed

text \<open>
  C6 as stated fails: with the invalid pattern \<^verbatim>\<open>(\<close> in the first rule, \<open>validate\<close>
  raises; it returns no result and the age rule after it is not evaluated.
\<close>

theorem invalid_regex_no_result_counterexample:
  "validate sample_host sample_engine 0 ''t'' 1 (sample_ruleset [zip_rule, age_rule])
     [(''zip'', Str ''94110''), (''age'', Num (Fin 30))] = Inl SyntaxError"
  by (simp add: validate_def sample_ruleset_def zip_rule_def sample_host_def lookup_def
      evaluateRule.simps evaluateCondition_def initial_result_def)



text \<open>
  C10. Without \<^verbatim>\<open>values\<close>, \<^verbatim>\<open>not_in\<close> returns \<^verbatim>\<open>true\<close> for every attribute value, and
  \<^verbatim>\<open>in\<close> returns the \<^verbatim>\<open>undefined\<close> of \<^verbatim>\<open>rule.values?.includes(value)\<close>, which both
  callers read as false (\<^verbatim>\<open>if (passed)\<close> on line 84, \<^verbatim>\<open>some\<close> on line 101): the rule
  fails for every attribute value.
\<close>

theorem missing_values_in_fails_not_in_passes:
  assumes "vals r = None"
  shows "(operator r = ''not_in'' \<longrightarrow> evaluateCondition h r v = Inr (Bool True)) \<and>
         (operator r = ''in'' \<longrightarrow>
            (\<exists>b. evaluateCondition h r v = Inr b \<and> \<not> ToBoolean b))"
  using assms by (simp add: evaluateCondition_def)

theorem missing_values_in_fails_not_in_passes_witness:
  "vals not_in_rule = None \<and> operator not_in_rule = ''not_in''
   \<and> evaluateCondition sample_host not_in_rule (Str ''CA'') = Inr (Bool True)
   \<and> vals in_rule = None \<and> operator in_rule = ''in''
   \<and> (\<exists>b. evaluateCondition sample_host in_rule (Str ''CA'') = Inr b \<and> \<not> ToBoolean b)"
proof -
  have n: "vals not_in_rule = None" "operator not_in_rule = ''not_in''"
    by (simp_all add: not_in_rule_def)
  have i: "vals in_rule = None" "operator in_rule = ''in''"
    by (simp_all add: in_rule_def)
  from missing_values_in_fails_not_in_passes [OF n(1), of sample_host "Str ''CA''"]
    missing_values_in_fails_not_in_passes [OF i(1), of sample_host "Str ''CA''"] n i
  show ?thesis by blast
qed

text \<open>
  C8. Each numeric operator is the comparison it is named after: on numbers,
  \<^verbatim>\<open>less_than\<close> is \<open><\<close> and \<^verbatim>\<open>greater_than\<close> is \<open>>\<close>, which exclude the bound;
  \<^verbatim>\<open>less_than_or_equal\<close> is \<open>\<le>\<close>, \<^verbatim>\<open>greater_than_or_equal\<close> is \<open>\<ge>\<close> and \<^verbatim>\<open>between\<close> is
  \<open>min \<le> value \<le> max\<close>, which include it. So the rule \<^verbatim>\<open>age <= 65\<close> passes at 65 and
  fails at 66, where the failed entry expects \<^verbatim>\<open><= 65\<close>, and a \<^verbatim>\<open>between\<close> rule passes
  at its lower and at its upper bound.
\<close>

theorem numeric_boundaries_inclusive:
  assumes "operator b = ''between''" and "rule_min b = Num (Fin lo)"
    and "rule_max b = Num (Fin hi)" and "lo \<le> hi"
    and "rules rs = [age_rule]"
  shows "(\<exists>res eng'. validate h eng startTime now endTime rs [(''age'', Num (Fin 65))] = Inr (res, eng')
            \<and> passed res = [passed_of age_rule (Num (Fin 65)) None] \<and> failed res = [] \<and> valid res)
       \<and> (\<exists>res eng' f. validate h eng startTime now endTime rs [(''age'', Num (Fin 66))] = Inr (res, eng')
            \<and> passed res = [] \<and> failed res = [f] \<and> expected f = Str ''<= 65'' \<and> \<not> valid res)
       \<and> evaluateCondition h b (Num (Fin lo)) = Inr (Bool True)
       \<and> evaluateCondition h b (Num (Fin hi)) = Inr (Bool True)
       \<and> evaluateCondition h b (Num (Fin z)) = Inr (Bool (lo \<le> z \<and> z \<le> hi))
       \<and> (val c = Num (Fin y) \<longrightarrow>
            (operator c = ''less_than'' \<longrightarrow>
               evaluateCondition h c (Num (Fin x)) = Inr (Bool (x < y))) \<and>
            (operator c = ''less_than_or_equal'' \<longrightarrow>
               evaluateCondition h c (Num (Fin x)) = Inr (Bool (x \<le> y))) \<and>
            (operator c = ''greater_than'' \<longrightarrow>
               evaluateCondition h c (Num (Fin x)) = Inr (Bool (x > y))) \<and>
            (operator c = ''greater_than_or_equal'' \<longrightarrow>
               evaluateCondition h c (Num (Fin x)) = Inr (Bool (x \<ge> y))))"
proof -
  have e65: "evaluateRule h age_rule [(''age'', Num (Fin 65))] res =
      Inr (res\<lparr>passed := passed res @ [passed_of age_rule (Num (Fin 65)) None]\<rparr>)" for res
    by (simp add: evaluateRule.simps age_rule_def lookup_def evaluateCondition_def Let_def)
  have e66: "evaluateRule h age_rule [(''age'', Num (Fin 66))] res =
      Inr (record_failure h age_rule (Num (Fin 66)) res)" for res
    by (simp add: evaluateRule.simps age_rule_def lookup_def evaluateCondition_def Let_def)
  have x: "expected (failed_of h age_rule v) = Str ''<= 65''" for v
    by (simp add: failed_of_def age_rule_def describeExpectation_def unitStr_def
        NumberToString_def digit_char_def)
  have a: "\<exists>res eng'. validate h eng startTime now endTime rs [(''age'', Num (Fin 65))] = Inr (res, eng')
            \<and> passed res = [passed_of age_rule (Num (Fin 65)) None] \<and> failed res = [] \<and> valid res"
    using assms(5) by (simp add: validate_def e65 initial_result_def Let_def)
  have r: "requirement age_rule = Some ''required''" by (simp add: age_rule_def)
  have b: "\<exists>res eng' f. validate h eng startTime now endTime rs [(''age'', Num (Fin 66))] = Inr (res, eng')
            \<and> passed res = [] \<and> failed res = [f] \<and> expected f = Str ''<= 65'' \<and> \<not> valid res"
    using assms(5) x
    by (simp add: validate_def e66 initial_result_def Let_def record_failure_def r)
  have c: "evaluateCondition h b (Num (Fin lo)) = Inr (Bool True)"
      "evaluateCondition h b (Num (Fin hi)) = Inr (Bool True)"
    using assms(1-4) by (simp_all add: evaluateCondition_def)
  have d: "evaluateCondition h b (Num (Fin z)) = Inr (Bool (lo \<le> z \<and> z \<le> hi))"
    using assms(1-3) by (simp add: evaluateCondition_def not_less)
  have g: "val c = Num (Fin y) \<longrightarrow>
            (operator c = ''less_than'' \<longrightarrow>
               evaluateCondition h c (Num (Fin x)) = Inr (Bool (x < y))) \<and>
            (operator c = ''less_than_or_equal'' \<longrightarrow>
               evaluateCondition h c (Num (Fin x)) = Inr (Bool (x \<le> y))) \<and>
            (operator c = ''greater_than'' \<longrightarrow>
               evaluateCondition h c (Num (Fin x)) = Inr (Bool (x > y))) \<and>
            (operator c = ''greater_than_or_equal'' \<longrightarrow>
               evaluateCondition h c (Num (Fin x)) = Inr (Bool (x \<ge> y)))"
    by (simp add: evaluateCondition_def not_less)
  from a b c d g show ?thesis by blast
qed

theorem numeric_boundaries_inclusive_witness:
  "(\<exists>res eng'. validate sample_host sample_engine 0 ''t'' 1 (sample_ruleset [age_rule])
         [(''age'', Num (Fin 65))] = Inr (res, eng')
       \<and> passed res = [passed_of age_rule (Num (Fin 65)) None] \<and> failed res = [] \<and> valid res)
   \<and> (\<exists>res eng' f. validate sample_host sample_engine 0 ''t'' 1 (sample_ruleset [age_rule])
         [(''age'', Num (Fin 66))] = Inr (res, eng')
       \<and> passed res = [] \<and> failed res = [f] \<and> expected f = Str ''<= 65'' \<and> \<not> valid res)
   \<and> evaluateCondition sample_host between_rule (Num (Fin 18)) = Inr (Bool True)
   \<and> evaluateCondition sample_host between_rule (Num (Fin 49)) = Inr (Bool True)
   \<and> evaluateCondition sample_host between_rule (Num (Fin 50)) = Inr (Bool False)
   \<and> evaluateCondition sample_host age_limit_rule (Num (Fin 65)) = Inr (Bool False)
   \<and> evaluateCondition sample_host age_rule (Num (Fin 65)) = Inr (Bool True)
   \<and> evaluateCondition sample_host older_rule (Num (Fin 18)) = Inr (Bool False)
   \<and> evaluateCondition sample_host adult_rule (Num (Fin 18)) = Inr (Bool True)"
proof -
  have 1: "operator between_rule = ''between''" by (simp add: between_rule_def)
  have 2: "rule_min between_rule = Num (Fin 18)" by (simp add: between_rule_def)
  have 3: "rule_max between_rule = Num (Fin 49)" by (simp add: between_rule_def)
  have 4: "(18::rat) \<le> 49" by simp
  have 5: "rules (sample_ruleset [age_rule]) = [age_rule]" by (simp add: sample_ruleset_def)
  note t = numeric_boundaries_inclusive [OF 1 2 3 4 5, where h = sample_host
      and eng = sample_engine and startTime = 0 and now = "''t''" and endTime = 1]
  have lt: "evaluateCondition sample_host age_limit_rule (Num (Fin 65)) = Inr (Bool False)"
    using t [where c = age_limit_rule and x = 65 and y = 65 and z = 50]
    by (simp add: age_limit_rule_def)
  have le: "evaluateCondition sample_host age_rule (Num (Fin 65)) = Inr (Bool True)"
    using t [where c = age_rule and x = 65 and y = 65 and z = 50]
    by (simp add: age_rule_def)
  have gt: "evaluateCondition sample_host older_rule (Num (Fin 18)) = Inr (Bool False)"
    using t [where c = older_rule and x = 18 and y = 18 and z = 50]
    by (simp add: older_rule_def)
  have ge: "evaluateCondition sample_host adult_rule (Num (Fin 18)) = Inr (Bool True)"
    using t [where c = adult_rule and x = 18 and y = 18 and z = 50]
    by (simp add: adult_rule_def)
  have bt: "evaluateCondition sample_host between_rule (Num (Fin 50)) = Inr (Bool False)"
    using t [where c = age_rule and x = 65 and y = 65 and z = 50] by simp
  from t [where c = age_rule and x = 65 and y = 65 and z = 50] lt le gt ge bt
  show ?thesis by blast
qed

subsection \<open>Alternatives\<close>




subsection \<open>The audit event\<close>

text \<open>
  C9. The event of a validation result holds the tag \<^verbatim>\<open>validation\<close>, the timestamp,
  the service id of the ruleset, the validity, the lengths of the three outcome lists,
  the duration, the error records, and the keys of the attribute object in
  \<open>attributes_provided\<close>. Each error record is the one made from a rule of the
  ruleset (its key, label and description), so no field of the event is taken from an
  attribute value. With \<^verbatim>\<open>logEvents\<close> the event is appended to the log.
\<close>

theorem createEvent_projection:
  assumes "validate h eng startTime now endTime rs attrs = Inr (res, eng')"
  shows "createEvent res =
       \<lparr>ev_type = ''validation'', ev_timestamp = now, ev_service_id = rs_service_id rs,
        ev_valid = (failed res = []), passed_count = length (passed res),
        failed_count = length (failed res), skipped_count = length (skipped res),
        ev_duration_ms = Some (endTime - startTime), ev_errors = errors res,
        attributes_provided = map fst attrs\<rparr>
     \<and> set (errors res) \<subseteq> error_of ` set (concat (map rule_nodes (rules rs)))
     \<and> eventLog eng' = (if logEvents eng then eventLog eng @ [createEvent res] else eventLog eng)"
proof -
  from assms obtain res0 where r0: "evaluateRules h (rules rs) attrs (initial_result now rs attrs) = Inr res0"
    and res: "res = res0\<lparr>valid := (length (failed res0) = 0), duration_ms := Some (endTime - startTime)\<rparr>"
    and eng': "eng' = (if logEvents eng then logEvent eng (createEvent res) else eng)"
    by (auto simp: validate_def Let_def split: sum.splits)
  from evaluate_extends(2) [OF r0] obtain ps fs ss es where 1:
    "errors res0 = errors (initial_result now rs attrs) @ es"
    "set es \<subseteq> error_of ` set (concat (map rule_nodes (rules rs)))"
    "service_id res0 = service_id (initial_result now rs attrs)"
    "timestamp res0 = timestamp (initial_result now rs attrs)"
    "changes res0 = changes (initial_result now rs attrs)"
    by (rule extends_byE)
  have m: "map (\<lambda>e. \<lparr>field = field e, message = message e\<rparr>) xs = xs" for xs :: "error_entry list"
    by (induction xs) simp_all
  have "createEvent res =
       \<lparr>ev_type = ''validation'', ev_timestamp = now, ev_service_id = rs_service_id rs,
        ev_valid = (failed res = []), passed_count = length (passed res),
        failed_count = length (failed res), skipped_count = length (skipped res),
        ev_duration_ms = Some (endTime - startTime), ev_errors = errors res,
        attributes_provided = map fst attrs\<rparr>"
    using 1(3-5) by (simp add: createEvent_def res m initial_result_def Object_keys_def)
  moreover have "set (errors res) \<subseteq> error_of ` set (concat (map rule_nodes (rules rs)))"
    using 1(1,2) by (simp add: res initial_result_def)
  moreover have "eventLog eng' = (if logEvents eng then eventLog eng @ [createEvent res] else eventLog eng)"
    by (simp add: eng' logEvent_def)
  ultimately show ?thesis by blast
qed

theorem createEvent_projection_witness:
  "\<exists>res eng'. validate sample_host sample_engine 0 ''t'' 5 (sample_ruleset [age_rule])
       [(''age'', Num (Fin 66)), (''ssn'', Str ''123-45-6789'')] = Inr (res, eng')
     \<and> createEvent res =
         \<lparr>ev_type = ''validation'', ev_timestamp = ''t'', ev_service_id = ''svc'',
          ev_valid = False, passed_count = 0, failed_count = 1, skipped_count = 0,
          ev_duration_ms = Some 5,
          ev_errors = [\<lparr>field = ''age'', message = ''Does not meet age requirement''\<rparr>],
          attributes_provided = [''age'', ''ssn'']\<rparr>
     \<and> eventLog eng' = [createEvent res]"
proof -
  let ?a = "[(''age'', Num (Fin 66)), (''ssn'', Str ''123-45-6789'')]"
  obtain res eng'
    where v: "validate sample_host sample_engine 0 ''t'' 5 (sample_ruleset [age_rule]) ?a
                = Inr (res, eng')"
      and l: "passed res = []" "length (failed res) = 1" "skipped res = []"
        "errors res = [\<lparr>field = ''age'', message = ''Does not meet age requirement''\<rparr>]"
    by (simp add: validate_def sample_ruleset_def age_rule_def evaluateRule.simps lookup_def
        initial_result_def Let_def evaluateCondition_def record_failure_def error_of_def
        label_or_key_def)
  from l(2) have f: "failed res \<noteq> []" by auto
  from createEvent_projection [OF v] l f
  have "createEvent res =
         \<lparr>ev_type = ''validation'', ev_timestamp = ''t'', ev_service_id = ''svc'',
          ev_valid = False, passed_count = 0, failed_count = 1, skipped_count = 0,
          ev_duration_ms = Some 5,
          ev_errors = [\<lparr>field = ''age'', message = ''Does not meet age requirement''\<rparr>],
          attributes_provided = [''age'', ''ssn'']\<rparr>
     \<and> eventLog eng' = [createEvent res]"
    by (simp add: sample_ruleset_def sample_engine_def)
  with v show ?thesis by blast
qed

subsection \<open>One list or none\<close>

text \<open>
  The three outcome lists of a run are the entries of the processed nodes, in
  processing order.
\<close>

lemma processed_unfold:
  "processed h attrs r =
     r # (if \<not> missing attrs r \<and> condition_passes h attrs r
          then concat (map (processed h attrs) (conditions r)) else [])"
  by (cases r) simp

lemma evaluate_trace:
  "evaluateRule h r attrs res = Inr res' \<Longrightarrow>
     passed res' = passed res @ concat (map (own_passed h attrs) (processed h attrs r)) \<and>
     failed res' = failed res @ concat (map (own_failed h attrs) (processed h attrs r)) \<and>
     skipped res' = skipped res @ concat (map (own_skipped attrs) (processed h attrs r))"
  "evaluateRules h rs attrs res = Inr res' \<Longrightarrow>
     passed res' = passed res @
       concat (map (own_passed h attrs) (concat (map (processed h attrs) rs))) \<and>
     failed res' = failed res @
       concat (map (own_failed h attrs) (concat (map (processed h attrs) rs))) \<and>
     skipped res' = skipped res @
       concat (map (own_skipped attrs) (concat (map (processed h attrs) rs)))"
proof (induction h r attrs res and h rs attrs res arbitrary: res' and res'
    rule: evaluateRule_evaluateRules.induct)
  case (1 h rule attrs res)
  let ?v = "lookup attrs (key rule)"
  show ?case
  proof (cases "missing attrs rule")
    case True
    then have "processed h attrs rule = [rule]"
      by (simp add: processed_unfold [of h attrs rule])
    moreover from True "1.prems" have
      "res' = (if requirement rule \<noteq> Some ''optional''
               then res\<lparr>skipped := skipped res @ [skipped_of rule]\<rparr> else res)"
      by (auto simp: evaluateRule.simps missing_def split: if_splits)
    ultimately show ?thesis using True
      by (simp add: own_passed_def own_failed_def own_skipped_def)
  next
    case False
    with "1.prems" obtain p where p: "evaluateCondition h rule ?v = Inr p"
      by (auto simp: evaluateRule.simps missing_def Let_def split: sum.splits)
    show ?thesis
    proof (cases "ToBoolean p")
      case True
      with p have cp: "condition_passes h attrs rule"
        by (simp add: condition_passes_def)
      from False have nm: "\<not> (?v = Undefined \<and> operator rule \<noteq> ''not_exists'')"
        by (simp add: missing_def)
      from "1.prems" nm p True have run:
        "evaluateRules h (conditions rule) attrs
           (res\<lparr>passed := passed res @ [passed_of rule ?v None]\<rparr>) = Inr res'"
        by (auto simp: evaluateRule.simps Let_def)
      note ih = "1.IH" [OF refl nm p True run]
      have pr: "processed h attrs rule =
          rule # concat (map (processed h attrs) (conditions rule))"
        using False cp by (simp add: processed_unfold [of h attrs rule])
      show ?thesis using ih False cp
        by (simp add: pr own_passed_def own_failed_def own_skipped_def)
    next
      case np: False
      with p have cp: "\<not> condition_passes h attrs rule"
        by (simp add: condition_passes_def)
      have pr: "processed h attrs rule = [rule]"
        using cp by (simp add: processed_unfold [of h attrs rule])
      from False have nm: "\<not> (?v = Undefined \<and> operator rule \<noteq> ''not_exists'')"
        by (simp add: missing_def)
      from "1.prems" nm p np have
        "res' = (if alternative_passes h attrs rule
                 then res\<lparr>passed := passed res @ [passed_of rule ?v (Some ''alternative'')]\<rparr>
                 else record_failure h rule ?v res)"
        by (auto simp: evaluateRule.simps Let_def alternative_passes_def
            split: sum.splits if_splits)
      then show ?thesis using False cp
        by (simp add: pr own_passed_def own_failed_def own_skipped_def record_failure_def)
    qed
  qed
next
  case (2 h attrs res)
  then show ?case by simp
next
  case (3 h r rs attrs res)
  from "3.prems" obtain res1 where r1: "evaluateRule h r attrs res = Inr res1"
    and r2: "evaluateRules h rs attrs res1 = Inr res'"
    by (auto split: sum.splits)
  from "3.IH"(1) [OF r1] "3.IH"(2) [OF r1 r2]
  show ?case by simp
qed

lemma subseq_concat_map:
  "(\<And>x. x \<in> set xs \<Longrightarrow> subseq (f x) (g x)) \<Longrightarrow> subseq (concat (map f xs)) (concat (map g xs))"
  by (induction xs) (auto intro: list_emb_append_mono)

lemma processed_subseq: "subseq (processed h attrs r) (rule_nodes r)"
  by (induction r) (auto intro: subseq_concat_map)

lemma subseq_distinct_map:
  assumes "subseq xs ys" and "distinct (map g ys)"
  shows "distinct (map g xs)"
proof -
  from assms(1) have "subseq (map g xs) (map g ys)" by (rule subseq_map)
  then obtain N where "map g xs = nths (map g ys) N"
    by (auto simp: subseq_conv_nths)
  with assms(2) show ?thesis by (simp add: distinct_nthsI)
qed

lemma count_all_same:
  "(\<And>e. e \<in> set xs \<Longrightarrow> idf e = i) \<Longrightarrow> count_list (map idf xs) i = length xs"
  by (induction xs) auto

lemma count_own:
  assumes "distinct (map g P)" and "n \<in> set P"
    and "\<And>m e. e \<in> set (f m) \<Longrightarrow> idf e = g m"
  shows "count_list (map idf (concat (map f P))) (g n) = length (f n)"
  using assms(1,2)
proof (induction P)
  case Nil
  then show ?case by simp
next
  case (Cons m P)
  show ?case
  proof (cases "m = n")
    case True
    with Cons.prems have "g n \<notin> g ` set P" by auto
    then have "g n \<notin> set (map idf (concat (map f P)))"
      using assms(3) by auto
    then have "count_list (map idf (concat (map f P))) (g n) = 0"
      by (simp add: count_list_0_iff)
    moreover have "count_list (map idf (f n)) (g n) = length (f n)"
      using assms(3) by (rule count_all_same)
    ultimately show ?thesis using True by simp
  next
    case False
    with Cons.prems have n: "n \<in> set P" and d: "distinct (map g P)" and "g m \<noteq> g n"
      by auto
    then have "g n \<notin> set (map idf (f m))" using assms(3) by auto
    then have "count_list (map idf (f m)) (g n) = 0"
      by (simp add: count_list_0_iff)
    with Cons.IH [OF d n] show ?thesis by simp
  qed
qed

lemma own_ids:
  "e \<in> set (own_passed h attrs m) \<Longrightarrow> p_id e = rule_id m"
  "f \<in> set (own_failed h attrs m) \<Longrightarrow> f_id f = rule_id m"
  "s \<in> set (own_skipped attrs m) \<Longrightarrow> s_id s = rule_id m"
  by (auto simp: own_passed_def own_failed_def own_skipped_def passed_of_def failed_of_def
      skipped_of_def split: if_splits)

lemma own_lengths:
  "length (own_passed h attrs n) + length (own_failed h attrs n) + length (own_skipped attrs n) \<le> 1"
  "length (own_passed h attrs n) + length (own_failed h attrs n) + length (own_skipped attrs n) = 0
   \<longleftrightarrow> requirement n = Some ''optional'' \<and>
       (missing attrs n \<or> (\<not> condition_passes h attrs n \<and> \<not> alternative_passes h attrs n))"
  by (auto simp: own_passed_def own_failed_def own_skipped_def)

text \<open>
  C2, as the code has it. In a ruleset whose nodes have distinct ids, take any node
  processed by a run of \<open>validate\<close> that returns. Its id occurs at most once in
  \<open>passed\<close>, \<open>failed\<close> and \<open>skipped\<close> taken together: the node is in exactly one list, or
  in none. It is in none exactly when its requirement is \<^verbatim>\<open>optional\<close> and either its
  attribute is missing (line 67), or its condition failed and no \<^verbatim>\<open>any_of\<close>
  alternative passed.
\<close>

theorem processed_node_in_one_list_or_none:
  assumes "validate h eng startTime now endTime rs attrs = Inr (res, eng')"
    and "distinct (map rule_id (concat (map rule_nodes (rules rs))))"
    and "n \<in> set (concat (map (processed h attrs) (rules rs)))"
  shows "count_list (map p_id (passed res)) (rule_id n) +
         count_list (map f_id (failed res)) (rule_id n) +
         count_list (map s_id (skipped res)) (rule_id n) \<le> 1
     \<and> (count_list (map p_id (passed res)) (rule_id n) +
         count_list (map f_id (failed res)) (rule_id n) +
         count_list (map s_id (skipped res)) (rule_id n) = 0
        \<longleftrightarrow> requirement n = Some ''optional'' \<and>
            (missing attrs n \<or>
             (\<not> condition_passes h attrs n \<and> \<not> alternative_passes h attrs n)))"
proof -
  let ?P = "concat (map (processed h attrs) (rules rs))"
  from assms(1) obtain res0
    where r0: "evaluateRules h (rules rs) attrs (initial_result now rs attrs) = Inr res0"
      and res: "passed res = passed res0" "failed res = failed res0" "skipped res = skipped res0"
    by (auto simp: validate_def Let_def split: sum.splits)
  from evaluate_trace(2) [OF r0] res have lists:
    "passed res = concat (map (own_passed h attrs) ?P)"
    "failed res = concat (map (own_failed h attrs) ?P)"
    "skipped res = concat (map (own_skipped attrs) ?P)"
    by (simp_all add: initial_result_def)
  have "subseq ?P (concat (map rule_nodes (rules rs)))"
    by (rule subseq_concat_map) (rule processed_subseq)
  then have d: "distinct (map rule_id ?P)"
    using assms(2) by (rule subseq_distinct_map)
  have p: "count_list (map p_id (passed res)) (rule_id n) = length (own_passed h attrs n)"
    unfolding lists by (rule count_own [OF d assms(3)]) (rule own_ids)
  have f: "count_list (map f_id (failed res)) (rule_id n) = length (own_failed h attrs n)"
    unfolding lists by (rule count_own [OF d assms(3)]) (rule own_ids)
  have s: "count_list (map s_id (skipped res)) (rule_id n) = length (own_skipped attrs n)"
    unfolding lists by (rule count_own [OF d assms(3)]) (rule own_ids)
  show ?thesis unfolding p f s using own_lengths [of h attrs n] by blast
qed

theorem processed_node_in_one_list_or_none_witness:
  "\<exists>res eng'.
      validate sample_host sample_engine 0 ''t'' 1 (sample_ruleset [work_rule])
        [(''employed'', Bool True), (''age'', Num (Fin 70))] = Inr (res, eng')
      \<and> distinct (map rule_id (concat (map rule_nodes (rules (sample_ruleset [work_rule])))))
      \<and> age_limit_rule \<in> set (concat (map (processed sample_host
             [(''employed'', Bool True), (''age'', Num (Fin 70))])
             (rules (sample_ruleset [work_rule]))))
      \<and> requirement age_limit_rule \<noteq> Some ''optional''
      \<and> count_list (map p_id (passed res)) (rule_id age_limit_rule) +
         count_list (map f_id (failed res)) (rule_id age_limit_rule) +
         count_list (map s_id (skipped res)) (rule_id age_limit_rule) = 1"
proof -
  let ?a = "[(''employed'', Bool True), (''age'', Num (Fin 70))]"
  obtain res eng'
    where v: "validate sample_host sample_engine 0 ''t'' 1 (sample_ruleset [work_rule]) ?a
                = Inr (res, eng')"
    by (simp add: validate_def sample_ruleset_def work_rule_def age_limit_rule_def
        evaluateRule.simps lookup_def initial_result_def Let_def evaluateCondition_def)
  have d: "distinct (map rule_id (concat (map rule_nodes (rules (sample_ruleset [work_rule])))))"
    by (simp add: sample_ruleset_def work_rule_def age_limit_rule_def)
  have n: "age_limit_rule \<in> set (concat (map (processed sample_host ?a)
             (rules (sample_ruleset [work_rule]))))"
    by (simp add: sample_ruleset_def work_rule_def age_limit_rule_def missing_def
        condition_passes_def lookup_def evaluateCondition_def)
  have r: "requirement age_limit_rule \<noteq> Some ''optional''"
    by (simp add: age_limit_rule_def)
  from processed_node_in_one_list_or_none [OF v d n] r
  have "count_list (map p_id (passed res)) (rule_id age_limit_rule) +
         count_list (map f_id (failed res)) (rule_id age_limit_rule) +
         count_list (map s_id (skipped res)) (rule_id age_limit_rule) = 1"
    by linarith
  with v d n r show ?thesis by blast
qed

text \<open>
  C2 as stated fails in both directions. An optional rule whose condition fails is
  listed, in \<open>passed\<close>, when an alternative passes; and an optional rule whose attribute
  is missing is in no list although its condition did not fail: it was never evaluated,
  and \<^verbatim>\<open>not_equals\<close> would have returned \<^verbatim>\<open>true\<close>.
\<close>

theorem optional_failed_listed_counterexample:
  "(\<exists>res eng'.
      validate sample_host sample_engine 0 ''t'' 1 (sample_ruleset [opt_work_rule])
        [(''employed'', Bool False), (''has_dependent_child'', Bool True)] = Inr (res, eng')
      \<and> requirement opt_work_rule = Some ''optional''
      \<and> evaluateCondition sample_host opt_work_rule
            (lookup [(''employed'', Bool False), (''has_dependent_child'', Bool True)]
               (key opt_work_rule)) = Inr (Bool False)
      \<and> map p_id (passed res) = [rule_id opt_work_rule])
   \<and> (\<exists>res eng'.
      validate sample_host sample_engine 0 ''t'' 1 (sample_ruleset [opt_state_rule]) []
        = Inr (res, eng')
      \<and> requirement opt_state_rule = Some ''optional''
      \<and> evaluateCondition sample_host opt_state_rule (lookup [] (key opt_state_rule))
            = Inr (Bool True)
      \<and> passed res = [] \<and> failed res = [] \<and> skipped res = [])"
  by (simp add: validate_def sample_ruleset_def opt_work_rule_def opt_state_rule_def
      child_alt_def evaluateRule.simps lookup_def initial_result_def Let_def
      evaluateCondition_def passed_of_def)

end
